theory Spec2Isabelle
  imports Main "HOL-Library.Sublist" "HOL-Library.Multiset" "HOL-Library.Product_Lexorder"
begin

section \<open>Errors and Python string operations\<close>

text \<open>
  Exceptions of the Python program are values: a function that can raise returns
  \<open>error + 'a\<close>, with \<open>Inl\<close> carrying the exception. \<open>StoreError\<close> stands for any
  network, authentication or not-found error of the object store client.
\<close>

datatype error = KeyError | ValueError | AssertionError | FileNotFoundError | StoreError

definition ebind :: "error + 'a \<Rightarrow> ('a \<Rightarrow> error + 'b) \<Rightarrow> error + 'b" where
  "ebind r k = (case r of Inl e \<Rightarrow> Inl e | Inr v \<Rightarrow> k v)"

text \<open>
  Strings are \<open>char list\<close>; every character is one code point below 256.
  \<open>s.startswith(p)\<close> is \<open>prefix p s\<close> and \<open>s.endswith(p)\<close> is \<open>suffix p s\<close>.
\<close>

text \<open>\<open>s.replace(old, new)\<close>: the non-overlapping occurrences of \<open>old\<close>, from the left.\<close>

function str_replace :: "string \<Rightarrow> string \<Rightarrow> string \<Rightarrow> string" where
  "str_replace old new [] = (if old = [] then new else [])"
| "str_replace old new (c # cs) =
     (if old = [] then new @ c # str_replace old new cs
      else if prefix old (c # cs) then new @ str_replace old new (drop (length old) (c # cs))
      else c # str_replace old new cs)"
  by pat_completeness auto
termination
  by (relation "measure (\<lambda>(old, new, s). length s)") auto

text \<open>\<open>s.split(sep)\<close> for a separator of one character: the text before the first
  separator, and the split of the text after it.\<close>

fun split_pair :: "char \<Rightarrow> string \<Rightarrow> string \<times> string list" where
  "split_pair sep [] = ([], [])"
| "split_pair sep (c # cs) =
     (case split_pair sep cs of (w, ws) \<Rightarrow> if c = sep then ([], w # ws) else (c # w, ws))"

definition str_split :: "char \<Rightarrow> string \<Rightarrow> string list" where
  "str_split sep s = (case split_pair sep s of (w, ws) \<Rightarrow> w # ws)"

section \<open>Asset identity (data.py, PolygonDataAsset)\<close>

datatype PolygonAssetType = Options | Index | Equity | Forex

fun asset_type_str :: "PolygonAssetType \<Rightarrow> string" where
  "asset_type_str Options = ''options''"
| "asset_type_str Index = ''index''"
| "asset_type_str Equity = ''equity''"
| "asset_type_str Forex = ''forex''"

fun POLYGON_DATA_TYPE_MAP :: "PolygonAssetType \<Rightarrow> string" where
  "POLYGON_DATA_TYPE_MAP Options = ''ohlcv''"
| "POLYGON_DATA_TYPE_MAP Index = ''ohlc''"
| "POLYGON_DATA_TYPE_MAP Equity = ''ohlcv''"
| "POLYGON_DATA_TYPE_MAP Forex = ''ohlcv''"

record PolygonDataAsset =
  asset_type :: PolygonAssetType
  asset_id :: string
  data_provider :: string
  interval_type :: string
  traded :: bool
  data_type :: string

text \<open>The generated constructor followed by \<open>__post_init__\<close>, which derives \<open>data_type\<close>.\<close>

definition new_PolygonDataAsset ::
  "PolygonAssetType \<Rightarrow> string \<Rightarrow> string \<Rightarrow> string \<Rightarrow> bool \<Rightarrow> PolygonDataAsset" where
  "new_PolygonDataAsset t i p iv tr =
     \<lparr>asset_type = t, asset_id = i, data_provider = p, interval_type = iv, traded = tr,
      data_type = POLYGON_DATA_TYPE_MAP t\<rparr>"

text \<open>The defaults of the dataclass: provider \<open>polygon\<close>, interval \<open>1d\<close>, not traded.\<close>

definition default_asset :: "PolygonAssetType \<Rightarrow> string \<Rightarrow> PolygonDataAsset" where
  "default_asset t i = new_PolygonDataAsset t i ''polygon'' ''1d'' False"

definition label :: "PolygonDataAsset \<Rightarrow> string" where
  "label a = data_provider a @ ''.'' @ asset_type_str (asset_type a) @ ''.'' @ data_type a
             @ ''.'' @ interval_type a @ ''.'' @ asset_id a"

text \<open>\<open>__eq__\<close> against another asset, and \<open>__hash__\<close> for a string hash \<open>h\<close> of the runtime.\<close>

definition asset_eq :: "PolygonDataAsset \<Rightarrow> PolygonDataAsset \<Rightarrow> bool" where
  "asset_eq self other = (label other = label self)"

definition asset_hash :: "(string \<Rightarrow> int) \<Rightarrow> PolygonDataAsset \<Rightarrow> int" where
  "asset_hash h self = h (label self)"

section \<open>Object store client (gcs.py)\<close>

text \<open>
  The bucket is a list of objects, name and text content, in the order the store lists
  them. A listing returns the names that start with the prefix. Every call of the client
  can fail with an error of the store, given by \<open>fault\<close>.
\<close>

datatype store_op = ListBlobs string | Download string

record bucket =
  objects :: "(string \<times> string) list"
  fault :: "store_op \<Rightarrow> error option"

text \<open>\<open>list_blobs_in_bucket\<close>; \<open>limit\<close> is \<open>max_results\<close>.\<close>

definition list_blobs_in_bucket :: "bucket \<Rightarrow> string \<Rightarrow> nat option \<Rightarrow> error + string list" where
  "list_blobs_in_bucket b pre limit =
     (case fault b (ListBlobs pre) of
        Some e \<Rightarrow> Inl e
      | None \<Rightarrow>
          (let blob_list = filter (prefix pre) (map fst (objects b))
           in Inr (case limit of None \<Rightarrow> blob_list | Some n \<Rightarrow> take n blob_list)))"

definition download_as_text :: "bucket \<Rightarrow> string \<Rightarrow> error + string" where
  "download_as_text b name =
     (case fault b (Download name) of
        Some e \<Rightarrow> Inl e
      | None \<Rightarrow> (case map_of (objects b) name of None \<Rightarrow> Inl StoreError | Some content \<Rightarrow> Inr content))"

subsection \<open>Dates in object names\<close>

text \<open>
  \<open>datetime.strptime(s, "%Y-%m-%d")\<close> compiles the format to the regular expression
  \<^verbatim>\<open>(?P<Y>\d\d\d\d)-(?P<m>1[0-2]|0[1-9]|[1-9])-(?P<d>3[0-1]|[1-2]\d|0[1-9]|[1-9]| [1-9])\<close>,
  matches it at the start of the string, rejects a match that leaves text over, and then
  builds the date, which rejects a year, month or day out of range. A matcher returns
  every way of matching at the start of a string, the value read and the rest of the
  string, in the order in which a backtracking matcher tries them.
\<close>

type_synonym date = "nat \<times> nat \<times> nat"

type_synonym rx = "string \<Rightarrow> (nat \<times> string) list"

definition digit_of :: "char \<Rightarrow> nat option" where
  "digit_of c = map_of [(CHR ''0'', 0), (CHR ''1'', 1), (CHR ''2'', 2), (CHR ''3'', 3), (CHR ''4'', 4),
                        (CHR ''5'', 5), (CHR ''6'', 6), (CHR ''7'', 7), (CHR ''8'', 8), (CHR ''9'', 9)] c"

text \<open>One digit between \<open>lo\<close> and \<open>hi\<close>.\<close>

definition rx_digit :: "nat \<Rightarrow> nat \<Rightarrow> rx" where
  "rx_digit lo hi s =
     (case s of
        [] \<Rightarrow> []
      | c # r \<Rightarrow> (case digit_of c of
                    None \<Rightarrow> []
                  | Some d \<Rightarrow> if lo \<le> d \<and> d \<le> hi then [(d, r)] else []))"

text \<open>A literal character, read as the value 0.\<close>

definition rx_char :: "char \<Rightarrow> rx" where
  "rx_char ch s = (case s of [] \<Rightarrow> [] | c # r \<Rightarrow> if c = ch then [(0, r)] else [])"

text \<open>Concatenation, reading the two values as one decimal number; alternation.\<close>

definition rx_seq :: "rx \<Rightarrow> rx \<Rightarrow> rx" where
  "rx_seq p q s = [(10 * a + b, r'). (a, r) \<leftarrow> p s, (b, r') \<leftarrow> q r]"

definition rx_alt :: "rx \<Rightarrow> rx \<Rightarrow> rx" where
  "rx_alt p q s = p s @ q s"

definition rx_Y :: rx where
  "rx_Y = rx_seq (rx_seq (rx_seq (rx_digit 0 9) (rx_digit 0 9)) (rx_digit 0 9)) (rx_digit 0 9)"

definition rx_m :: rx where
  "rx_m = rx_alt (rx_seq (rx_digit 1 1) (rx_digit 0 2))
         (rx_alt (rx_seq (rx_digit 0 0) (rx_digit 1 9))
                 (rx_digit 1 9))"

definition rx_d :: rx where
  "rx_d = rx_alt (rx_seq (rx_digit 3 3) (rx_digit 0 1))
         (rx_alt (rx_seq (rx_digit 1 2) (rx_digit 0 9))
         (rx_alt (rx_seq (rx_digit 0 0) (rx_digit 1 9))
         (rx_alt (rx_digit 1 9)
                 (rx_seq (rx_char CHR '' '') (rx_digit 1 9)))))"

definition format_regex :: "string \<Rightarrow> (date \<times> string) list" where
  "format_regex s =
     [((y, m, d), r5). (y, r1) \<leftarrow> rx_Y s, (u, r2) \<leftarrow> rx_char CHR ''-'' r1, (m, r3) \<leftarrow> rx_m r2,
                       (v, r4) \<leftarrow> rx_char CHR ''-'' r3, (d, r5) \<leftarrow> rx_d r4]"

definition is_leap :: "nat \<Rightarrow> bool" where
  "is_leap y = (y mod 4 = 0 \<and> (y mod 100 \<noteq> 0 \<or> y mod 400 = 0))"

definition days_in_month :: "nat \<Rightarrow> nat \<Rightarrow> nat" where
  "days_in_month y m =
     (if m = 2 then (if is_leap y then 29 else 28)
      else if m = 4 \<or> m = 6 \<or> m = 9 \<or> m = 11 then 30 else 31)"

definition valid_date :: "date \<Rightarrow> bool" where
  "valid_date dt = (case dt of (y, m, d) \<Rightarrow>
     1 \<le> y \<and> y \<le> 9999 \<and> 1 \<le> m \<and> m \<le> 12 \<and> 1 \<le> d \<and> d \<le> days_in_month y m)"

definition strptime_Ymd :: "string \<Rightarrow> error + date" where
  "strptime_Ymd s =
     (case format_regex s of
        [] \<Rightarrow> Inl ValueError
      | (dt, rest) # _ \<Rightarrow>
          if rest \<noteq> [] then Inl ValueError
          else if valid_date dt then Inr dt
          else Inl ValueError)"

text \<open>The inner function \<open>extract_date\<close> of \<open>sort_blobs_by_date\<close>.\<close>

definition extract_date :: "string \<Rightarrow> error + date" where
  "extract_date blob =
     (let date_str = str_replace ''.jsonl'' [] (last (str_split CHR ''/'' blob))
      in strptime_Ymd date_str)"

text \<open>
  \<open>sorted(blobs, key=extract_date)\<close> computes the key of every element, in order, so the
  first key that raises ends the call; it then sorts by the keys, and the sort is stable.
  Dates compare by year, then month, then day.
\<close>

fun compute_keys :: "('a \<Rightarrow> error + 'k) \<Rightarrow> 'a list \<Rightarrow> error + ('k \<times> 'a) list" where
  "compute_keys key [] = Inr []"
| "compute_keys key (x # xs) =
     (case key x of
        Inl e \<Rightarrow> Inl e
      | Inr k \<Rightarrow> (case compute_keys key xs of Inl e \<Rightarrow> Inl e | Inr ks \<Rightarrow> Inr ((k, x) # ks)))"

definition py_sorted :: "('a \<Rightarrow> error + 'k::linorder) \<Rightarrow> 'a list \<Rightarrow> error + 'a list" where
  "py_sorted key xs =
     (case compute_keys key xs of Inl e \<Rightarrow> Inl e | Inr ks \<Rightarrow> Inr (map snd (sort_key fst ks)))"

definition sort_blobs_by_date :: "string list \<Rightarrow> error + string list" where
  "sort_blobs_by_date blobs = py_sorted extract_date blobs"

text \<open>A loop that stops at the first element that raises.\<close>

fun emap :: "('a \<Rightarrow> error + 'b) \<Rightarrow> 'a list \<Rightarrow> error + 'b list" where
  "emap f [] = Inr []"
| "emap f (x # xs) =
     (case f x of
        Inl e \<Rightarrow> Inl e
      | Inr y \<Rightarrow> (case emap f xs of Inl e \<Rightarrow> Inl e | Inr ys \<Rightarrow> Inr (y # ys)))"

section \<open>Tables and the library operations on them\<close>

text \<open>
  A table has a row index and named columns of cells; column labels are unique, as in a
  frame built from records. The floating point numbers are a type parameter \<open>'f\<close>.
  The operations of pandas, json and str that the program calls and whose results it
  only passes on are parameters, collected in \<open>lib\<close>; each may raise. \<open>pick\<close> decides
  which of the pending downloads completes next.
\<close>

datatype 'f cell = IntC int | FloatC 'f | StrC string | BoolC bool | NoneC | OtherC string

record 'f table =
  idx :: "'f cell list"
  cols :: "(string \<times> 'f cell list) list"

type_synonym 'f row = "(string \<times> 'f cell) list"

record 'f lib =
  json_loads :: "string \<Rightarrow> error + 'f row"
  splitlines :: "string \<Rightarrow> string list"
  strip :: "string \<Rightarrow> string"
  nan :: "'f"
  float_of :: "'f cell \<Rightarrow> error + 'f"
  to_datetime_dt :: "'f table \<Rightarrow> error + 'f table"
  sort_values_dt :: "'f table \<Rightarrow> error + 'f table"
  set_index_dt :: "'f table \<Rightarrow> error + 'f table"
  pick :: "nat \<Rightarrow> nat"

definition shape :: "'f table \<Rightarrow> nat \<times> nat" where
  "shape df = (length (idx df), length (cols df))"

text \<open>
  \<open>pd.DataFrame(data)\<close> for a list of records: one row per record under a range index,
  the columns in the order in which their names first occur, NaN where a record lacks
  the field.
\<close>

definition DataFrame :: "'f lib \<Rightarrow> 'f row list \<Rightarrow> 'f table" where
  "DataFrame L data =
     \<lparr>idx = map (\<lambda>i. IntC (int i)) [0..<length data],
      cols = map (\<lambda>c. (c, map (\<lambda>r. case map_of r c of None \<Rightarrow> FloatC (nan L) | Some v \<Rightarrow> v) data))
                 (rev (remdups (rev (concat (map (map fst) data)))))\<rparr>"

text \<open>\<open>df[names]\<close> raises when a name is not a column.\<close>

fun getitem_cols :: "(string \<times> 'c) list \<Rightarrow> string list \<Rightarrow> error + (string \<times> 'c) list" where
  "getitem_cols cs [] = Inr []"
| "getitem_cols cs (n # ns) =
     (case map_of cs n of
        None \<Rightarrow> Inl KeyError
      | Some v \<Rightarrow> (case getitem_cols cs ns of Inl e \<Rightarrow> Inl e | Inr r \<Rightarrow> Inr ((n, v) # r)))"

text \<open>\<open>df[name] = values\<close> replaces the column, or adds it as the last one.\<close>

fun setitem_col :: "string \<times> 'c \<Rightarrow> (string \<times> 'c) list \<Rightarrow> (string \<times> 'c) list" where
  "setitem_col (n, v) [] = [(n, v)]"
| "setitem_col (n, v) (p # ps) = (if fst p = n then (n, v) # ps else p # setitem_col (n, v) ps)"

text \<open>\<open>astype(float)\<close>: a float stays as it is, any other cell is converted or raises.\<close>

definition cast_cell :: "'f lib \<Rightarrow> 'f cell \<Rightarrow> error + 'f cell" where
  "cast_cell L c =
     (case c of
        FloatC x \<Rightarrow> Inr (FloatC x)
      | _ \<Rightarrow> (case float_of L c of Inl e \<Rightarrow> Inl e | Inr x \<Rightarrow> Inr (FloatC x)))"

definition astype_float :: "'f lib \<Rightarrow> (string \<times> 'f cell list) list \<Rightarrow> error + (string \<times> 'f cell list) list" where
  "astype_float L sub =
     emap (\<lambda>(n, v). case emap (cast_cell L) v of Inl e \<Rightarrow> Inl e | Inr v' \<Rightarrow> Inr (n, v')) sub"

section \<open>Cleaning pipeline (data.py)\<close>

type_synonym 'f CleanerFunc = "'f table \<Rightarrow> PolygonDataAsset \<Rightarrow> error + 'f table"

definition set_sort_dt_index :: "'f lib \<Rightarrow> 'f CleanerFunc" where
  "set_sort_dt_index L df asset =
     ebind (to_datetime_dt L df) (\<lambda>df1. ebind (sort_values_dt L df1) (\<lambda>df2. set_index_dt L df2))"

definition add_asset_id_prefixes :: "'f CleanerFunc" where
  "add_asset_id_prefixes df asset =
     (let prefixed_columns = map (\<lambda>col. asset_id asset @ ''_'' @ col) (map fst (cols df))
      in Inr (df\<lparr>cols := zip prefixed_columns (map snd (cols df))\<rparr>))"

definition ohlcv_cols :: "string list" where
  "ohlcv_cols = [''open'', ''high'', ''low'', ''close'']"

definition ohlc_to_float :: "'f lib \<Rightarrow> 'f CleanerFunc" where
  "ohlc_to_float L df asset =
     (case getitem_cols (cols df) ohlcv_cols of
        Inl e \<Rightarrow> Inl e
      | Inr sub \<Rightarrow>
          (case astype_float L sub of
             Inl e \<Rightarrow> Inl e
           | Inr sub' \<Rightarrow> Inr (df\<lparr>cols := fold setitem_col sub' (cols df)\<rparr>)))"

text \<open>A cleaner with its \<open>__name__\<close>.\<close>

type_synonym 'f named_cleaner = "string \<times> 'f CleanerFunc"

fun CLEANERS :: "'f lib \<Rightarrow> PolygonAssetType \<Rightarrow> 'f named_cleaner list" where
  "CLEANERS L Options = [(''set_sort_dt_index'', set_sort_dt_index L)]"
| "CLEANERS L Index = []"
| "CLEANERS L Equity = [(''set_sort_dt_index'', set_sort_dt_index L), (''ohlc_to_float'', ohlc_to_float L),
                        (''add_asset_id_prefixes'', add_asset_id_prefixes)]"
| "CLEANERS L Forex = [(''set_sort_dt_index'', set_sort_dt_index L)]"

subsection \<open>The logging wrapper\<close>

definition digit_char :: "nat \<Rightarrow> char" where
  "digit_char n = ''0123456789'' ! n"

function str_nat :: "nat \<Rightarrow> string" where
  "str_nat n = (if n < 10 then [digit_char n] else str_nat (n div 10) @ [digit_char (n mod 10)])"
  by pat_completeness auto
termination
  by (relation "measure (\<lambda>n. n)") auto

declare str_nat.simps [simp del]

fun join :: "string \<Rightarrow> string list \<Rightarrow> string" where
  "join sep [] = []"
| "join sep [x] = x"
| "join sep (x # y # ys) = x @ sep @ join sep (y # ys)"

text \<open>
  \<open>log_dataframe_changes(func)(df, asset)\<close>: the value returned or the exception raised,
  and the lines written to the log.
\<close>

definition log_dataframe_changes ::
  "'f named_cleaner \<Rightarrow> 'f table \<Rightarrow> PolygonDataAsset \<Rightarrow> (error + 'f table) \<times> string list" where
  "log_dataframe_changes func df asset =
     (let before_shape = shape df
      in case snd func df asset of
           Inl e \<Rightarrow> (Inl e, [])
         | Inr result_df \<Rightarrow>
             (let after_shape = shape result_df;
                  row_change = int (fst after_shape) - int (fst before_shape);
                  col_change = int (snd after_shape) - int (snd before_shape);
                  changes =
                    (if row_change \<noteq> 0
                     then [(if row_change > 0 then ''added'' else ''removed'') @ '' ''
                            @ str_nat (nat \<bar>row_change\<bar>) @ '' rows'']
                     else [])
                    @ (if col_change \<noteq> 0
                       then [(if col_change > 0 then ''added'' else ''removed'') @ '' ''
                              @ str_nat (nat \<bar>col_change\<bar>) @ '' columns'']
                       else []);
                  change_description = (if changes \<noteq> [] then join '' and '' changes else ''made no changes'')
              in (Inr result_df, [fst func @ ''() '' @ change_description @ ''.''])))"

text \<open>The loop over the cleaners in \<open>load_asset\<close>, each one wrapped.\<close>

fun apply_cleaners ::
  "'f named_cleaner list \<Rightarrow> 'f table \<Rightarrow> PolygonDataAsset \<Rightarrow> (error + 'f table) \<times> string list" where
  "apply_cleaners [] df asset = (Inr df, [])"
| "apply_cleaners (cleaner_func # rest) df asset =
     (case log_dataframe_changes cleaner_func df asset of
        (Inl e, lg) \<Rightarrow> (Inl e, lg)
      | (Inr df', lg) \<Rightarrow> (case apply_cleaners rest df' asset of (r, lg') \<Rightarrow> (r, lg @ lg')))"

section \<open>Remote loader (data.py)\<close>

text \<open>A call of the store returns its result and the operations it performed.\<close>

definition list_polygon_asset_files :: "bucket \<Rightarrow> PolygonDataAsset \<Rightarrow> (error + string list) \<times> store_op list" where
  "list_polygon_asset_files gcs asset =
     (let prefix0 = str_replace ''.'' ''/'' (label asset);
          pre = (if \<not> suffix ''/'' prefix0 then prefix0 @ ''/'' else prefix0)
      in (list_blobs_in_bucket gcs pre None, [ListBlobs pre]))"

definition load_jsonl_blob :: "'f lib \<Rightarrow> bucket \<Rightarrow> string \<Rightarrow> (error + 'f row list) \<times> store_op list" where
  "load_jsonl_blob L gcs blob_name =
     (case download_as_text gcs blob_name of
        Inl e \<Rightarrow> Inl e
      | Inr content \<Rightarrow> emap (json_loads L) (filter (\<lambda>line. strip L line \<noteq> []) (splitlines L content)),
      [Download blob_name])"

text \<open>
  \<open>as_completed\<close> yields the submitted downloads in the order in which they finish:
  some permutation, chosen step by step by \<open>pick\<close>.
\<close>

function as_completed :: "(nat \<Rightarrow> nat) \<Rightarrow> nat \<Rightarrow> 'a list \<Rightarrow> 'a list" where
  "as_completed pk k xs =
     (if xs = [] then []
      else xs ! (pk k mod length xs)
           # as_completed pk (Suc k) (take (pk k mod length xs) xs @ drop (Suc (pk k mod length xs)) xs))"
  by pat_completeness auto
termination
proof (relation "measure (\<lambda>(pk, k, xs). length xs)")
  show "wf (measure (\<lambda>(pk :: nat \<Rightarrow> nat, k :: nat, xs :: 'a list). length xs))"
    by simp
next
  fix pk :: "nat \<Rightarrow> nat" and k :: nat and xs :: "'a list"
  assume "xs \<noteq> []"
  then have "pk k mod length xs < length xs"
    by simp
  then show "((pk, Suc k, take (pk k mod length xs) xs @ drop (Suc (pk k mod length xs)) xs), pk, k, xs)
             \<in> measure (\<lambda>(pk, k, xs). length xs)"
    by simp
qed

declare as_completed.simps [simp del]

text \<open>
  \<open>blobs[:blob_limit]\<close> under \<open>if blob_limit:\<close>; a negative limit counts from the end.
  In the loader every download is submitted, so every download is an operation on the
  store, and the first failed download in completion order raises. The final \<open>assert\<close>
  is enabled, as it is unless the interpreter runs with optimisation.
\<close>

definition truncate_blobs :: "int option \<Rightarrow> 'a list \<Rightarrow> 'a list" where
  "truncate_blobs blob_limit blobs =
     (case blob_limit of
        None \<Rightarrow> blobs
      | Some n \<Rightarrow> if n = 0 then blobs
                  else if n > 0 then take (nat n) blobs
                  else take (length blobs - nat (- n)) blobs)"

definition load_polygon_data_asset_from_gcs ::
  "'f lib \<Rightarrow> bucket \<Rightarrow> PolygonDataAsset \<Rightarrow> int option \<Rightarrow> bool \<Rightarrow> (error + 'f table) \<times> store_op list" where
  "load_polygon_data_asset_from_gcs L gcs asset blob_limit clean =
     (case list_polygon_asset_files gcs asset of
        (Inl e, ops) \<Rightarrow> (Inl e, ops)
      | (Inr listed, ops) \<Rightarrow>
          (case sort_blobs_by_date listed of
             Inl e \<Rightarrow> (Inl e, ops)
           | Inr sorted_blobs \<Rightarrow>
               (let blobs = truncate_blobs blob_limit sorted_blobs;
                    futures = map (load_jsonl_blob L gcs) blobs;
                    ops' = ops @ concat (map snd futures)
                in case emap id (as_completed (pick L) 0 (map fst futures)) of
                     Inl e \<Rightarrow> (Inl e, ops')
                   | Inr parts \<Rightarrow>
                       (let df = DataFrame L (concat parts)
                        in if length (idx df) > 0 then (Inr df, ops') else (Inl AssertionError, ops')))))"

section \<open>Local cache and data manager (data.py)\<close>

text \<open>
  The cache directory is the list of its files, relative path and stored table, in the
  order in which the directory walk finds them. Loading a path that is not there raises;
  saving replaces the file in place or adds it as the last one. Other failures of the
  file system are not part of the model.
\<close>

type_synonym 'f cache = "(string \<times> 'f table) list"

definition get_polygon_asset_local_file_name :: "PolygonDataAsset \<Rightarrow> string" where
  "get_polygon_asset_local_file_name asset = str_replace ''.'' ''/'' (label asset) @ ''.joblib''"

definition list_files :: "'f cache \<Rightarrow> string \<Rightarrow> string list" where
  "list_files c pre = filter (prefix pre) (map fst c)"

definition load :: "'f cache \<Rightarrow> string \<Rightarrow> error + 'f table" where
  "load c file = (case map_of c file of None \<Rightarrow> Inl FileNotFoundError | Some obj \<Rightarrow> Inr obj)"

definition save :: "'f cache \<Rightarrow> 'f table \<Rightarrow> string \<Rightarrow> 'f cache" where
  "save c obj file = setitem_col (file, obj) c"

record 'f outcome =
  result :: "error + 'f table"
  cache_after :: "'f cache"
  store_ops :: "store_op list"
  logged :: "string list"

definition clean_step :: "'f lib \<Rightarrow> PolygonDataAsset \<Rightarrow> bool \<Rightarrow> 'f table \<Rightarrow> (error + 'f table) \<times> string list" where
  "clean_step L asset clean df =
     (if clean then apply_cleaners (CLEANERS L (asset_type asset)) df asset else (Inr df, []))"

definition load_asset ::
  "'f lib \<Rightarrow> 'f cache \<Rightarrow> bucket \<Rightarrow> PolygonDataAsset \<Rightarrow> bool \<Rightarrow> bool \<Rightarrow> 'f outcome" where
  "load_asset L c gcs asset force_reload clean =
     (let cache_file = get_polygon_asset_local_file_name asset;
          cached_files = list_files c cache_file
      in if \<not> force_reload \<and> cached_files \<noteq> []
         then (case load c (hd cached_files) of
                 Inl e \<Rightarrow> \<lparr>result = Inl e, cache_after = c, store_ops = [], logged = []\<rparr>
               | Inr df \<Rightarrow>
                   (case clean_step L asset clean df of
                      (r, lg) \<Rightarrow> \<lparr>result = r, cache_after = c, store_ops = [], logged = lg\<rparr>))
         else (case load_polygon_data_asset_from_gcs L gcs asset None True of
                 (Inl e, ops) \<Rightarrow> \<lparr>result = Inl e, cache_after = c, store_ops = ops, logged = []\<rparr>
               | (Inr df, ops) \<Rightarrow>
                   (let c' = save c df cache_file
                    in case clean_step L asset clean df of
                         (r, lg) \<Rightarrow> \<lparr>result = r, cache_after = c', store_ops = ops, logged = lg\<rparr>)))"

section \<open>Notions of the specification\<close>

text \<open>
  The specification speaks of the date token of an object name: the segment after the
  last separator with the suffix \<open>.jsonl\<close> removed, of the form \<open>YYYY-MM-DD\<close>. These
  definitions follow its words: the suffix is removed once, at the end, and the token has
  four digits, a hyphen, two digits, a hyphen and two digits that form a calendar date.
\<close>

definition strip_suffix :: "string \<Rightarrow> string \<Rightarrow> string" where
  "strip_suffix suf s = (if suffix suf s then take (length s - length suf) s else s)"

definition spec_date_token :: "string \<Rightarrow> string" where
  "spec_date_token blob = strip_suffix ''.jsonl'' (last (str_split CHR ''/'' blob))"

definition decimal :: "nat list \<Rightarrow> nat" where
  "decimal ds = foldl (\<lambda>n d. 10 * n + d) 0 ds"

fun spec_token_date :: "string \<Rightarrow> date option" where
  "spec_token_date [y1, y2, y3, y4, h1, m1, m2, h2, d1, d2] =
     (case (those (map digit_of [y1, y2, y3, y4]), those (map digit_of [m1, m2]), those (map digit_of [d1, d2])) of
        (Some ys, Some ms, Some ds) \<Rightarrow>
          if h1 = CHR ''-'' \<and> h2 = CHR ''-'' \<and> valid_date (decimal ys, decimal ms, decimal ds)
          then Some (decimal ys, decimal ms, decimal ds) else None
      | _ \<Rightarrow> None)"
| "spec_token_date t = None"

text \<open>The sort key of the code as a total function: the date \<open>extract_date\<close> returns.\<close>

definition date_key :: "string \<Rightarrow> date" where
  "date_key blob = (case extract_date blob of Inl e \<Rightarrow> (0, 0, 0) | Inr d \<Rightarrow> d)"

text \<open>
  The listing prefix in the words of the specification: every dot of the label becomes
  a separator, and a separator is appended unless the path already ends with one.
\<close>

definition label_path :: "PolygonDataAsset \<Rightarrow> string" where
  "label_path asset = map (\<lambda>c. if c = CHR ''.'' then CHR ''/'' else c) (label asset)"

definition listing_prefix :: "PolygonDataAsset \<Rightarrow> string" where
  "listing_prefix asset =
     (if suffix ''/'' (label_path asset) then label_path asset else label_path asset @ ''/'')"

text \<open>The cleaning loop without the logging wrapper.\<close>

fun apply_plain :: "'f CleanerFunc list \<Rightarrow> 'f table \<Rightarrow> PolygonDataAsset \<Rightarrow> error + 'f table" where
  "apply_plain [] df asset = Inr df"
| "apply_plain (f # fs) df asset =
     (case f df asset of Inl e \<Rightarrow> Inl e | Inr df' \<Rightarrow> apply_plain fs df' asset)"

fun is_float :: "'f cell \<Rightarrow> bool" where
  "is_float (FloatC x) = True"
| "is_float c = False"

text \<open>The four assignments of \<open>ohlc_to_float\<close>, in order.\<close>

definition set_ohlc :: "'c \<Rightarrow> 'c \<Rightarrow> 'c \<Rightarrow> 'c \<Rightarrow> (string \<times> 'c) list \<Rightarrow> (string \<times> 'c) list" where
  "set_ohlc o' h' l' c' cs =
     setitem_col (''close'', c') (setitem_col (''low'', l') (setitem_col (''high'', h') (setitem_col (''open'', o') cs)))"

section \<open>A small store, library and cache\<close>

text \<open>
  Concrete inputs on which the theorems are instantiated: floats are integers, a line of
  an object is the \<open>dt\<close> field of its record, the three pandas steps of
  \<open>set_sort_dt_index\<close> leave the table as it is, and the first pending download
  completes first.
\<close>

definition ex_lib :: "int lib" where
  "ex_lib = \<lparr>json_loads = (\<lambda>s. Inr [(''dt'', StrC s), (''open'', IntC 1), (''high'', IntC 2),
                                        (''low'', IntC 1), (''close'', FloatC 3), (''volume'', IntC 100)]),
             splitlines = (\<lambda>s. [s]), strip = (\<lambda>s. s), nan = 0,
             float_of = (\<lambda>c. case c of IntC i \<Rightarrow> Inr i | _ \<Rightarrow> Inl ValueError),
             to_datetime_dt = Inr, sort_values_dt = Inr, set_index_dt = Inr, pick = (\<lambda>k. 0)\<rparr>"

definition ex_bucket :: bucket where
  "ex_bucket = \<lparr>objects = [(''polygon/equity/ohlcv/1d/SPY/2024-01-02.jsonl'', ''b''),
                           (''polygon/equity/ohlcv/1d/SPY/2024-01-01.jsonl'', ''a''),
                           (''polygon/equity/ohlcv/1d/SPYD/2024-01-01.jsonl'', ''c'')],
                fault = (\<lambda>op. None)\<rparr>"

definition ex_asset :: PolygonDataAsset where
  "ex_asset = default_asset Equity ''SPY''"

definition ex_table :: "int table" where
  "ex_table = \<lparr>idx = [IntC 0],
               cols = [(''dt'', [StrC ''a'']), (''open'', [IntC 1]), (''high'', [IntC 2]), (''low'', [IntC 1]),
                       (''close'', [FloatC 3]), (''volume'', [IntC 100])]\<rparr>"

definition ex_cache :: "int cache" where
  "ex_cache = [(''polygon/equity/ohlcv/1d/SPY.joblib'', ex_table)]"

definition ex_remote :: "int table" where
  "ex_remote = \<lparr>idx = [IntC 0, IntC 1],
                cols = [(''dt'', [StrC ''a'', StrC ''b'']), (''open'', [IntC 1, IntC 1]),
                        (''high'', [IntC 2, IntC 2]), (''low'', [IntC 1, IntC 1]),
                        (''close'', [FloatC 3, FloatC 3]), (''volume'', [IntC 100, IntC 100])]\<rparr>"

definition ex_ops :: "store_op list" where
  "ex_ops = [ListBlobs ''polygon/equity/ohlcv/1d/SPY/'',
             Download ''polygon/equity/ohlcv/1d/SPY/2024-01-01.jsonl'',
             Download ''polygon/equity/ohlcv/1d/SPY/2024-01-02.jsonl'']"

definition ex_cleaned :: "int table" where
  "ex_cleaned = \<lparr>idx = [IntC 0],
                 cols = [(''SPY_dt'', [StrC ''a'']), (''SPY_open'', [FloatC 1]), (''SPY_high'', [FloatC 2]),
                         (''SPY_low'', [FloatC 1]), (''SPY_close'', [FloatC 3]), (''SPY_volume'', [IntC 100])]\<rparr>"

definition ex_floats :: "int table" where
  "ex_floats = \<lparr>idx = [IntC 0],
                cols = [(''dt'', [StrC ''a'']), (''open'', [FloatC 1]), (''high'', [FloatC 2]),
                        (''low'', [FloatC 1]), (''close'', [FloatC 3]), (''volume'', [IntC 100])]\<rparr>"

section \<open>Facts about the library model\<close>

lemma map_of_setitem_col: "map_of (setitem_col (k, v) c) = (map_of c)(k \<mapsto> v)"
  by (induction c) (auto simp: fun_eq_iff)

lemma setitem_col_keys: "map_of c k = Some w \<Longrightarrow> map fst (setitem_col (k, v) c) = map fst c"
  by (induction c) (auto split: if_splits)

lemma setitem_col_same: "map_of c k = Some v \<Longrightarrow> setitem_col (k, v) c = c"
  by (induction c) (auto split: if_splits)


lemma as_completed_Nil: "as_completed pk k [] = []"
  by (simp add: as_completed.simps)

lemma sort_blobs_Nil: "sort_blobs_by_date [] = Inr []"
  by (simp add: sort_blobs_by_date_def py_sorted_def)

lemma str_replace_dot: "str_replace ''.'' ''/'' s = map (\<lambda>c. if c = CHR ''.'' then CHR ''/'' else c) s"
  by (induction s) auto

lemma listing_prefix_code: "list_polygon_asset_files gcs asset
    = (list_blobs_in_bucket gcs (listing_prefix asset) None, [ListBlobs (listing_prefix asset)])"
  by (simp add: list_polygon_asset_files_def listing_prefix_def label_path_def str_replace_dot Let_def)

lemma spy_prefixes:
  assumes "asset_id asset = ''SPY''"
  shows "\<exists>P. listing_prefix asset = P @ ''/SPY/'' \<and> listing_prefix (asset\<lparr>asset_id := ''SPYD''\<rparr>) = P @ ''/SPYD/''"
  using assms by (simp add: listing_prefix_def label_path_def label_def suffix_def)

lemma cast_cell_fixed: "cast_cell L c = Inr c' \<Longrightarrow> cast_cell L c' = Inr c' \<and> is_float c'"
  by (auto simp: cast_cell_def split: cell.splits sum.splits)

lemma emap_cast_fixed: "emap (cast_cell L) v = Inr v' \<Longrightarrow> emap (cast_cell L) v' = Inr v' \<and> list_all is_float v'"
proof (induction v arbitrary: v')
  case Nil
  then show ?case by simp
next
  case (Cons c v)
  then show ?case
    by (auto split: sum.splits dest: cast_cell_fixed)
qed

lemma ohlc_to_float_Inr:
  "ohlc_to_float L df asset = Inr df' \<longleftrightarrow>
     (\<exists>vo vh vl vc vo' vh' vl' vc'.
        map_of (cols df) ''open'' = Some vo \<and> map_of (cols df) ''high'' = Some vh
        \<and> map_of (cols df) ''low'' = Some vl \<and> map_of (cols df) ''close'' = Some vc
        \<and> emap (cast_cell L) vo = Inr vo' \<and> emap (cast_cell L) vh = Inr vh'
        \<and> emap (cast_cell L) vl = Inr vl' \<and> emap (cast_cell L) vc = Inr vc'
        \<and> df' = df\<lparr>cols := set_ohlc vo' vh' vl' vc' (cols df)\<rparr>)"
  by (auto simp: ohlc_to_float_def ohlcv_cols_def astype_float_def set_ohlc_def split: option.splits sum.splits)

lemma map_of_set_ohlc:
  "map_of (set_ohlc o' h' l' c' cs) = (map_of cs)(''open'' \<mapsto> o', ''high'' \<mapsto> h', ''low'' \<mapsto> l', ''close'' \<mapsto> c')"
  by (simp add: set_ohlc_def map_of_setitem_col)

lemma keys_set_ohlc:
  assumes "map_of cs ''open'' = Some vo" "map_of cs ''high'' = Some vh"
    "map_of cs ''low'' = Some vl" "map_of cs ''close'' = Some vc"
  shows "map fst (set_ohlc o' h' l' c' cs) = map fst cs"
proof -
  let ?c1 = "setitem_col (''open'', o') cs"
  let ?c2 = "setitem_col (''high'', h') ?c1"
  let ?c3 = "setitem_col (''low'', l') ?c2"
  have 1: "map fst ?c1 = map fst cs"
    using assms(1) by (rule setitem_col_keys)
  have "map_of ?c1 ''high'' = Some vh"
    using assms(2) by (simp add: map_of_setitem_col)
  then have 2: "map fst ?c2 = map fst ?c1"
    by (rule setitem_col_keys)
  have "map_of ?c2 ''low'' = Some vl"
    using assms(3) by (simp add: map_of_setitem_col)
  then have 3: "map fst ?c3 = map fst ?c2"
    by (rule setitem_col_keys)
  have "map_of ?c3 ''close'' = Some vc"
    using assms(4) by (simp add: map_of_setitem_col)
  then have 4: "map fst (setitem_col (''close'', c') ?c3) = map fst ?c3"
    by (rule setitem_col_keys)
  show ?thesis
    unfolding set_ohlc_def using 1 2 3 4 by simp
qed

lemma set_ohlc_same:
  assumes "map_of cs ''open'' = Some o'" "map_of cs ''high'' = Some h'"
    "map_of cs ''low'' = Some l'" "map_of cs ''close'' = Some c'"
  shows "set_ohlc o' h' l' c' cs = cs"
  using assms by (simp add: set_ohlc_def setitem_col_same)

lemma ohlc_to_float_fixed:
  assumes "ohlc_to_float L df asset = Inr df'"
  shows "ohlc_to_float L df' asset = Inr df'"
proof -
  from assms obtain vo vh vl vc vo' vh' vl' vc' where
    c: "emap (cast_cell L) vo = Inr vo'" "emap (cast_cell L) vh = Inr vh'"
       "emap (cast_cell L) vl = Inr vl'" "emap (cast_cell L) vc = Inr vc'"
    and d: "df' = df\<lparr>cols := set_ohlc vo' vh' vl' vc' (cols df)\<rparr>"
    unfolding ohlc_to_float_Inr by blast
  have m: "map_of (cols df') ''open'' = Some vo'" "map_of (cols df') ''high'' = Some vh'"
      "map_of (cols df') ''low'' = Some vl'" "map_of (cols df') ''close'' = Some vc'"
    by (simp_all add: d map_of_set_ohlc)
  have f: "emap (cast_cell L) vo' = Inr vo'" "emap (cast_cell L) vh' = Inr vh'"
      "emap (cast_cell L) vl' = Inr vl'" "emap (cast_cell L) vc' = Inr vc'"
    using c by (simp_all add: emap_cast_fixed)
  have s: "set_ohlc vo' vh' vl' vc' (cols df') = cols df'"
    using m by (rule set_ohlc_same)
  have "df' = df'\<lparr>cols := set_ohlc vo' vh' vl' vc' (cols df')\<rparr>"
    by (simp add: s)
  with m f show ?thesis
    unfolding ohlc_to_float_Inr by blast
qed

lemma digit_of_Some: "digit_of c = Some a \<Longrightarrow> a \<le> 9 \<and> c \<noteq> CHR ''-'' \<and> c \<noteq> CHR ''.'' \<and> c \<noteq> CHR '' ''"
  by (auto simp: digit_of_def split: if_splits)

lemma rx_digit_Cons: "digit_of c = Some a \<Longrightarrow> rx_digit lo hi (c # r) = (if lo \<le> a \<and> a \<le> hi then [(a, r)] else [])"
  by (simp add: rx_digit_def)

lemma rx_char_Cons: "rx_char ch (c # r) = (if c = ch then [(0, r)] else [])"
  by (simp add: rx_char_def)

lemma strict_parse:
  assumes d: "digit_of y1 = Some a" "digit_of y2 = Some b" "digit_of y3 = Some c" "digit_of y4 = Some d"
      "digit_of m1 = Some e" "digit_of m2 = Some f" "digit_of d1 = Some g" "digit_of d2 = Some h"
    and v: "valid_date (10 * (10 * (10 * a + b) + c) + d, 10 * e + f, 10 * g + h)"
  shows "strptime_Ymd [y1, y2, y3, y4, CHR ''-'', m1, m2, CHR ''-'', d1, d2]
         = Inr (10 * (10 * (10 * a + b) + c) + d, 10 * e + f, 10 * g + h)"
proof -
  note r = d [THEN digit_of_Some]
  have dim: "days_in_month y m \<le> 31" for y m
    by (simp add: days_in_month_def)
  from v have m: "1 \<le> 10 * e + f" "10 * e + f \<le> 12" and dd: "1 \<le> 10 * g + h" "10 * g + h \<le> 31"
    using dim [of "10 * (10 * (10 * a + b) + c) + d" "10 * e + f"] by (auto simp: valid_date_def)
  have Y: "rx_Y (y1 # y2 # y3 # y4 # r) = [(10 * (10 * (10 * a + b) + c) + d, r)]" for r
    using r d by (simp add: rx_Y_def rx_seq_def rx_digit_Cons)
  from m consider (m0) "e = 0" "1 \<le> f" | (m1) "e = 1" "f \<le> 2"
    by linarith
  then have M: "rx_m (m1 # m2 # CHR ''-'' # r) = [(10 * e + f, CHR ''-'' # r)]
      \<or> rx_m (m1 # m2 # CHR ''-'' # r) = [(10 * e + f, CHR ''-'' # r), (e, m2 # CHR ''-'' # r)]" for r
    using r d by cases (simp_all add: rx_m_def rx_alt_def rx_seq_def rx_digit_Cons)
  from dd r consider "g = 0" "1 \<le> h" | "g = 1" | "g = 2" | "g = 3" "h \<le> 1"
    by linarith
  then have D: "\<exists>rest. rx_d [d1, d2] = (10 * g + h, []) # rest"
    using r d by cases (simp_all add: rx_d_def rx_alt_def rx_seq_def rx_digit_Cons rx_char_Cons)
  then obtain rest where rest: "rx_d [d1, d2] = (10 * g + h, []) # rest"
    by blast
  have "\<exists>more. format_regex [y1, y2, y3, y4, CHR ''-'', m1, m2, CHR ''-'', d1, d2]
      = ((10 * (10 * (10 * a + b) + c) + d, 10 * e + f, 10 * g + h), []) # more"
    using M [of "[d1, d2]"] r by (auto simp: format_regex_def Y rx_char_Cons rest)
  then show ?thesis
    using v by (auto simp: strptime_Ymd_def)
qed


lemma those_digits2: "those (map digit_of [c1, c2]) = Some ds \<longleftrightarrow>
    (\<exists>a b. digit_of c1 = Some a \<and> digit_of c2 = Some b \<and> ds = [a, b])"
  by (auto split: option.splits)

lemma those_digits4: "those (map digit_of [c1, c2, c3, c4]) = Some ds \<longleftrightarrow>
    (\<exists>a b c d. digit_of c1 = Some a \<and> digit_of c2 = Some b \<and> digit_of c3 = Some c \<and> digit_of c4 = Some d
       \<and> ds = [a, b, c, d])"
  by (auto split: option.splits)

lemma spec_token_date_strptime:
  assumes "spec_token_date t = Some dt"
  shows "strptime_Ymd t = Inr dt \<and> CHR ''.'' \<notin> set t"
  using assms
proof (cases t rule: spec_token_date.cases)
  case (1 y1 y2 y3 y4 h1 m1 m2 h2 d1 d2)
  with assms obtain ys ms ds where
    y: "those (map digit_of [y1, y2, y3, y4]) = Some ys" and m: "those (map digit_of [m1, m2]) = Some ms"
    and d: "those (map digit_of [d1, d2]) = Some ds"
    and h: "h1 = CHR ''-''" "h2 = CHR ''-''"
    and v: "valid_date (decimal ys, decimal ms, decimal ds)" and dt: "dt = (decimal ys, decimal ms, decimal ds)"
    by (auto split: option.splits if_splits)
  from y obtain a b c d' where y': "digit_of y1 = Some a" "digit_of y2 = Some b" "digit_of y3 = Some c"
      "digit_of y4 = Some d'" "ys = [a, b, c, d']"
    unfolding those_digits4 by blast
  from m obtain e f where m': "digit_of m1 = Some e" "digit_of m2 = Some f" "ms = [e, f]"
    unfolding those_digits2 by blast
  from d obtain g k where d': "digit_of d1 = Some g" "digit_of d2 = Some k" "ds = [g, k]"
    unfolding those_digits2 by blast
  have dec: "decimal ys = 10 * (10 * (10 * a + b) + c) + d'" "decimal ms = 10 * e + f" "decimal ds = 10 * g + k"
    by (simp_all add: decimal_def y' m' d')
  have "strptime_Ymd [y1, y2, y3, y4, CHR ''-'', m1, m2, CHR ''-'', d1, d2] = Inr dt"
    unfolding dt dec using y'(1-4) m'(1,2) d'(1,2) v [unfolded dec] by (rule strict_parse)
  moreover have "CHR ''.'' \<notin> set t"
    using y'(1-4) m'(1,2) d'(1,2) digit_of_Some by (auto simp: 1 h)
  ultimately show ?thesis
    by (simp add: 1 h)
qed simp_all

lemma str_replace_token:
  "CHR ''.'' \<notin> set t \<Longrightarrow> str_replace ''.jsonl'' [] (t @ ''.jsonl'') = t \<and> str_replace ''.jsonl'' [] t = t"
  by (induction t) auto

lemma strip_suffix_cases: "s = strip_suffix suf s @ suf \<or> s = strip_suffix suf s"
  by (auto simp: strip_suffix_def suffix_def)

lemma spec_token_extract_date:
  assumes "spec_token_date (spec_date_token blob) = Some dt"
  shows "extract_date blob = Inr dt"
proof -
  let ?seg = "last (str_split CHR ''/'' blob)"
  let ?t = "strip_suffix ''.jsonl'' ?seg"
  from assms have p: "strptime_Ymd ?t = Inr dt" and nd: "CHR ''.'' \<notin> set ?t"
    using spec_token_date_strptime by (simp_all add: spec_date_token_def)
  have "str_replace ''.jsonl'' [] (?t @ ''.jsonl'') = ?t" "str_replace ''.jsonl'' [] ?t = ?t"
    using str_replace_token [OF nd] by blast+
  moreover have "?seg = ?t @ ''.jsonl'' \<or> ?seg = ?t"
    by (rule strip_suffix_cases)
  ultimately have "str_replace ''.jsonl'' [] ?seg = ?t"
    by metis
  then show ?thesis
    by (simp add: extract_date_def p)
qed

lemma compute_keys_total:
  "\<forall>x \<in> set xs. key x = Inr (tk x) \<Longrightarrow> compute_keys key xs = Inr (map (\<lambda>x. (tk x, x)) xs)"
  by (induction xs) auto

lemma compute_keys_Inr_all:
  "compute_keys key xs = Inr ks \<Longrightarrow> \<forall>x \<in> set xs. \<exists>k. key x = Inr k"
  by (induction xs arbitrary: ks) (auto split: sum.splits)


lemma insort_key_decorated:
  "insort_key fst (f x, x) (map (\<lambda>x. (f x, x)) ys) = map (\<lambda>x. (f x, x)) (insort_key f x ys)"
  by (induction ys) auto

lemma sort_key_decorated:
  "sort_key fst (map (\<lambda>x. (f x, x)) xs) = map (\<lambda>x. (f x, x)) (sort_key f xs)"
  by (induction xs) (simp_all add: insort_key_decorated)

lemma extract_date_key: "extract_date b = Inr k \<Longrightarrow> date_key b = k"
  by (simp add: date_key_def)

lemma sort_blobs_by_date_Inr:
  "sort_blobs_by_date blobs = Inr ys \<longleftrightarrow> (\<forall>b \<in> set blobs. \<exists>k. extract_date b = Inr k) \<and> ys = sort_key date_key blobs"
proof (cases "\<forall>b \<in> set blobs. \<exists>k. extract_date b = Inr k")
  case True
  then have "\<forall>b \<in> set blobs. extract_date b = Inr (date_key b)"
    by (auto simp: date_key_def)
  then have "compute_keys extract_date blobs = Inr (map (\<lambda>x. (date_key x, x)) blobs)"
    by (rule compute_keys_total)
  then have "sort_blobs_by_date blobs = Inr (sort_key date_key blobs)"
    by (simp add: sort_blobs_by_date_def py_sorted_def sort_key_decorated comp_def)
  with True show ?thesis
    by auto
next
  case False
  then have "\<exists>e. compute_keys extract_date blobs = Inl e"
    by (metis compute_keys_Inr_all sumE)
  with False show ?thesis
    by (auto simp: sort_blobs_by_date_def py_sorted_def)
qed

section \<open>Evaluation on the small store\<close>

lemmas ex_defs = ex_lib_def ex_bucket_def ex_asset_def ex_table_def ex_cache_def ex_remote_def ex_ops_def
  ex_cleaned_def ex_floats_def default_asset_def new_PolygonDataAsset_def label_def

lemmas date_defs = extract_date_def str_split_def strptime_Ymd_def format_regex_def rx_Y_def rx_m_def
  rx_d_def rx_seq_def rx_alt_def rx_digit_def rx_char_def digit_of_def valid_date_def days_in_month_def
  is_leap_def

lemma ex_cache_file: "get_polygon_asset_local_file_name ex_asset = ''polygon/equity/ohlcv/1d/SPY.joblib''"
  by (simp add: get_polygon_asset_local_file_name_def ex_defs)


lemma ex_listing:
  "list_polygon_asset_files ex_bucket ex_asset
   = (Inr [''polygon/equity/ohlcv/1d/SPY/2024-01-02.jsonl'', ''polygon/equity/ohlcv/1d/SPY/2024-01-01.jsonl''],
      [ListBlobs ''polygon/equity/ohlcv/1d/SPY/''])"
  by (simp add: list_polygon_asset_files_def list_blobs_in_bucket_def suffix_to_prefix ex_defs)

lemma ex_sorted:
  "sort_blobs_by_date [''polygon/equity/ohlcv/1d/SPY/2024-01-02.jsonl'', ''polygon/equity/ohlcv/1d/SPY/2024-01-01.jsonl'']
   = Inr [''polygon/equity/ohlcv/1d/SPY/2024-01-01.jsonl'', ''polygon/equity/ohlcv/1d/SPY/2024-01-02.jsonl'']"
  by (simp add: sort_blobs_by_date_def py_sorted_def date_defs)

lemma ex_futures:
  "load_jsonl_blob ex_lib ex_bucket ''polygon/equity/ohlcv/1d/SPY/2024-01-01.jsonl''
   = (Inr [[(''dt'', StrC ''a''), (''open'', IntC 1), (''high'', IntC 2), (''low'', IntC 1),
            (''close'', FloatC 3), (''volume'', IntC 100)]],
      [Download ''polygon/equity/ohlcv/1d/SPY/2024-01-01.jsonl''])"
  "load_jsonl_blob ex_lib ex_bucket ''polygon/equity/ohlcv/1d/SPY/2024-01-02.jsonl''
   = (Inr [[(''dt'', StrC ''b''), (''open'', IntC 1), (''high'', IntC 2), (''low'', IntC 1),
            (''close'', FloatC 3), (''volume'', IntC 100)]],
      [Download ''polygon/equity/ohlcv/1d/SPY/2024-01-02.jsonl''])"
  by (simp_all add: load_jsonl_blob_def download_as_text_def ex_lib_def ex_bucket_def)

lemma as_completed_first: "as_completed (\<lambda>k. 0) n [x, y] = [x, y]"
  by (simp add: as_completed.simps)

lemma ex_remote_load:
  "load_polygon_data_asset_from_gcs ex_lib ex_bucket ex_asset None True = (Inr ex_remote, ex_ops)"
proof -
  have p: "pick ex_lib = (\<lambda>k. 0)"
    by (simp add: ex_lib_def)
  have d: "DataFrame ex_lib
      [[(''dt'', StrC ''a''), (''open'', IntC 1), (''high'', IntC 2), (''low'', IntC 1),
        (''close'', FloatC 3), (''volume'', IntC 100)],
       [(''dt'', StrC ''b''), (''open'', IntC 1), (''high'', IntC 2), (''low'', IntC 1),
        (''close'', FloatC 3), (''volume'', IntC 100)]] = ex_remote"
    by (simp add: DataFrame_def ex_remote_def upt_rec)
  show ?thesis
    by (simp add: load_polygon_data_asset_from_gcs_def ex_listing ex_sorted truncate_blobs_def ex_futures p
        as_completed_first d Let_def)
      (simp add: ex_remote_def ex_ops_def)
qed

lemma ex_float: "ohlc_to_float ex_lib ex_table ex_asset = Inr ex_floats"
  by (simp add: ohlc_to_float_def ohlcv_cols_def astype_float_def cast_cell_def ex_lib_def ex_table_def ex_floats_def)

lemma ex_shapes: "shape ex_table = (1, 6)" "shape ex_floats = (1, 6)" "shape ex_cleaned = (1, 6)"
  by (simp_all add: shape_def ex_defs)

lemma ex_clean:
  "apply_cleaners (CLEANERS ex_lib (asset_type ex_asset)) ex_table ex_asset
   = (Inr ex_cleaned, [''set_sort_dt_index() made no changes.'', ''ohlc_to_float() made no changes.'',
                       ''add_asset_id_prefixes() made no changes.''])"
proof -
  have t: "asset_type ex_asset = Equity"
    by (simp add: ex_defs)
  have s: "set_sort_dt_index ex_lib ex_table ex_asset = Inr ex_table"
    by (simp add: set_sort_dt_index_def ebind_def ex_lib_def)
  have a: "add_asset_id_prefixes ex_floats ex_asset = Inr ex_cleaned"
    by (simp add: add_asset_id_prefixes_def ex_defs)
  show ?thesis
    by (simp add: t log_dataframe_changes_def s ex_float a ex_shapes)
qed

section \<open>Data manager: the cache path\<close>



section \<open>Data manager: the remote path\<close>

text \<open>
  C2. When \<open>load_asset\<close> takes the remote path, because \<open>force_reload\<close> is set or no cached
  file matches, and the remote load returns a table, that table is written to the cache
  under the canonical cache name, replacing what was stored there and leaving every other
  file as it was; the stored table is the one loaded, before any cleaning, whatever
  \<open>clean\<close> is and whether or not the cleaners then raise.
\<close>

theorem remote_path_writes_cache:
  assumes "force_reload \<or> list_files c (get_polygon_asset_local_file_name asset) = []"
    and "load_polygon_data_asset_from_gcs L gcs asset None True = (Inr df, ops)"
  shows "cache_after (load_asset L c gcs asset force_reload clean)
           = save c df (get_polygon_asset_local_file_name asset)
       \<and> load (cache_after (load_asset L c gcs asset force_reload clean)) (get_polygon_asset_local_file_name asset) = Inr df
       \<and> (\<forall>p. p \<noteq> get_polygon_asset_local_file_name asset \<longrightarrow>
             load (cache_after (load_asset L c gcs asset force_reload clean)) p = load c p)
       \<and> store_ops (load_asset L c gcs asset force_reload clean) = ops
       \<and> result (load_asset L c gcs asset force_reload clean)
           = (if clean then fst (apply_cleaners (CLEANERS L (asset_type asset)) df asset) else Inr df)"
proof -
  have ca: "cache_after (load_asset L c gcs asset force_reload clean)
           = save c df (get_polygon_asset_local_file_name asset)"
    using assms by (auto simp: load_asset_def clean_step_def Let_def split: prod.splits)
  have rest: "store_ops (load_asset L c gcs asset force_reload clean) = ops
       \<and> result (load_asset L c gcs asset force_reload clean)
           = (if clean then fst (apply_cleaners (CLEANERS L (asset_type asset)) df asset) else Inr df)"
    using assms by (auto simp: load_asset_def clean_step_def Let_def split: prod.splits)
  show ?thesis
    using rest by (simp add: ca save_def load_def map_of_setitem_col)
qed

theorem remote_path_writes_cache_witness:
  "load_polygon_data_asset_from_gcs ex_lib ex_bucket ex_asset None True = (Inr ex_remote, ex_ops)
   \<and> load ex_cache (get_polygon_asset_local_file_name ex_asset) = Inr ex_table
   \<and> cache_after (load_asset ex_lib ex_cache ex_bucket ex_asset True True)
       = [(''polygon/equity/ohlcv/1d/SPY.joblib'', ex_remote)]
   \<and> load (cache_after (load_asset ex_lib ex_cache ex_bucket ex_asset True True))
         (get_polygon_asset_local_file_name ex_asset) = Inr ex_remote
   \<and> store_ops (load_asset ex_lib ex_cache ex_bucket ex_asset True True) = ex_ops"
  using remote_path_writes_cache [OF _ ex_remote_load, of True ex_cache True]
  by (simp add: ex_remote_load ex_cache_file) (simp add: save_def load_def ex_cache_def)

section \<open>Sorting object names by date\<close>

text \<open>
  C3. When \<open>sort_blobs_by_date\<close> returns, its result is a permutation of the input, in
  ascending order of the dates read from the names, and names with equal dates keep
  their input order. When every name has a date token of the form \<open>YYYY-MM-DD\<close> after
  its last separator, with the suffix \<open>.jsonl\<close> removed, the call returns and the date
  read from each name is the date of that token. On the input
  \<open>a/2024-01-05.jsonl, a/2024-01-01.jsonl\<close> the result is the two names in the order
  \<open>2024-01-01\<close>, \<open>2024-01-05\<close>.
\<close>

theorem sort_blobs_by_date_stable:
  "(sort_blobs_by_date blobs = Inr ys \<longrightarrow>
       mset ys = mset blobs \<and> sorted (map date_key ys)
       \<and> (\<forall>k. filter (\<lambda>b. date_key b = k) ys = filter (\<lambda>b. date_key b = k) blobs))
   \<and> ((\<forall>b \<in> set blobs. spec_token_date (spec_date_token b) \<noteq> None) \<longrightarrow>
         (\<exists>zs. sort_blobs_by_date blobs = Inr zs)
         \<and> (\<forall>b \<in> set blobs. spec_token_date (spec_date_token b) = Some (date_key b)))
   \<and> sort_blobs_by_date [''a/2024-01-05.jsonl'', ''a/2024-01-01.jsonl'']
       = Inr [''a/2024-01-01.jsonl'', ''a/2024-01-05.jsonl'']"
proof (intro conjI impI)
  assume "sort_blobs_by_date blobs = Inr ys"
  then have ys: "ys = sort_key date_key blobs"
    by (simp add: sort_blobs_by_date_Inr)
  show "mset ys = mset blobs"
    by (simp add: ys)
  show "sorted (map date_key ys)"
    by (simp add: ys)
  show "\<forall>k. filter (\<lambda>b. date_key b = k) ys = filter (\<lambda>b. date_key b = k) blobs"
    by (simp add: ys sort_key_stable)
next
  assume a: "\<forall>b \<in> set blobs. spec_token_date (spec_date_token b) \<noteq> None"
  have e: "spec_token_date (spec_date_token b) = Some (date_key b) \<and> extract_date b = Inr (date_key b)"
    if "b \<in> set blobs" for b
  proof -
    from a that obtain dt where dt: "spec_token_date (spec_date_token b) = Some dt"
      by blast
    then have "extract_date b = Inr dt"
      by (rule spec_token_extract_date)
    then show ?thesis
      by (simp add: dt date_key_def)
  qed
  then show "\<exists>zs. sort_blobs_by_date blobs = Inr zs"
    unfolding sort_blobs_by_date_Inr by blast
  from e show "\<forall>b \<in> set blobs. spec_token_date (spec_date_token b) = Some (date_key b)"
    by blast
next
  show "sort_blobs_by_date [''a/2024-01-05.jsonl'', ''a/2024-01-01.jsonl'']
       = Inr [''a/2024-01-01.jsonl'', ''a/2024-01-05.jsonl'']"
    by (simp add: sort_blobs_by_date_def py_sorted_def extract_date_def str_split_def strptime_Ymd_def
        format_regex_def rx_Y_def rx_m_def rx_d_def rx_seq_def rx_alt_def rx_digit_def rx_char_def
        digit_of_def valid_date_def days_in_month_def is_leap_def)
qed

lemma ex_tokens:
  "spec_token_date (spec_date_token ''a/2024-01-05.jsonl'') = Some (2024, 1, 5)"
  "spec_token_date (spec_date_token ''a/2024-01-01.jsonl'') = Some (2024, 1, 1)"
  by (simp_all add: spec_date_token_def strip_suffix_def suffix_to_prefix str_split_def digit_of_def
      decimal_def valid_date_def days_in_month_def is_leap_def)

theorem sort_blobs_by_date_stable_witness:
  "sort_blobs_by_date [''a/2024-01-05.jsonl'', ''a/2024-01-01.jsonl'']
     = Inr [''a/2024-01-01.jsonl'', ''a/2024-01-05.jsonl'']
   \<and> sorted (map date_key [''a/2024-01-01.jsonl'', ''a/2024-01-05.jsonl''])
   \<and> date_key ''a/2024-01-01.jsonl'' = (2024, 1, 1) \<and> date_key ''a/2024-01-05.jsonl'' = (2024, 1, 5)"
  using sort_blobs_by_date_stable [of "[''a/2024-01-05.jsonl'', ''a/2024-01-01.jsonl'']"
      "[''a/2024-01-01.jsonl'', ''a/2024-01-05.jsonl'']"]
  by (simp add: ex_tokens)

section \<open>Malformed dates\<close>




section \<open>Remote loader: empty results\<close>

text \<open>
  C4. \<open>load_polygon_data_asset_from_gcs\<close> never returns a table with zero rows: whatever
  the asset and the blob limit, a table it returns has at least one row, and when the
  listing of the asset's files is empty the call raises the assertion error.
\<close>

theorem remote_load_never_empty: "(load_polygon_data_asset_from_gcs L gcs asset blob_limit clean = (Inr df, ops) \<longrightarrow> 0 < length (idx df))
  \<and> (fst (list_polygon_asset_files gcs asset) = Inr [] \<longrightarrow>
       fst (load_polygon_data_asset_from_gcs L gcs asset blob_limit clean) = Inl AssertionError)"
proof
  show "load_polygon_data_asset_from_gcs L gcs asset blob_limit clean = (Inr df, ops) \<longrightarrow> 0 < length (idx df)"
    by (auto simp: load_polygon_data_asset_from_gcs_def Let_def split: prod.splits sum.splits if_splits)
next
  show "fst (list_polygon_asset_files gcs asset) = Inr [] \<longrightarrow>
       fst (load_polygon_data_asset_from_gcs L gcs asset blob_limit clean) = Inl AssertionError"
  proof
    assume a: "fst (list_polygon_asset_files gcs asset) = Inr []"
    then obtain ops where l: "list_polygon_asset_files gcs asset = (Inr [], ops)"
      by (cases "list_polygon_asset_files gcs asset") auto
    have t: "truncate_blobs blob_limit ([] :: string list) = []"
      by (simp add: truncate_blobs_def split: option.splits)
    show "fst (load_polygon_data_asset_from_gcs L gcs asset blob_limit clean) = Inl AssertionError"
      by (simp add: load_polygon_data_asset_from_gcs_def l sort_blobs_Nil t as_completed_Nil DataFrame_def)
  qed
qed

lemma ex_empty_listing:
  "list_polygon_asset_files ex_bucket (default_asset Equity ''QQQ'') = (Inr [], [ListBlobs ''polygon/equity/ohlcv/1d/QQQ/''])"
  by (simp add: list_polygon_asset_files_def list_blobs_in_bucket_def suffix_to_prefix ex_defs)

theorem remote_load_never_empty_witness:
  "load_polygon_data_asset_from_gcs ex_lib ex_bucket ex_asset None True = (Inr ex_remote, ex_ops)
   \<and> 0 < length (idx ex_remote)
   \<and> fst (list_polygon_asset_files ex_bucket (default_asset Equity ''QQQ'')) = Inr []
   \<and> fst (load_polygon_data_asset_from_gcs ex_lib ex_bucket (default_asset Equity ''QQQ'') None True)
       = Inl AssertionError"
  using remote_load_never_empty [of ex_lib ex_bucket ex_asset None True ex_remote ex_ops]
    remote_load_never_empty [of ex_lib ex_bucket "default_asset Equity ''QQQ''" None True]
  by (simp add: ex_remote_load ex_empty_listing)

section \<open>Listing the files of an asset\<close>

text \<open>
  C5. \<open>list_polygon_asset_files\<close> lists the bucket under the prefix made of the label with
  its dots replaced by separators, followed by a separator unless it already ends with
  one: the names returned are the object names that start with that prefix. For an asset
  with id \<open>SPY\<close>, no name returned lies under the prefix of the asset that differs only
  in having the id \<open>SPYD\<close>.
\<close>

theorem asset_files_under_prefix:
  "fst (list_polygon_asset_files gcs asset) = list_blobs_in_bucket gcs (listing_prefix asset) None
   \<and> (fst (list_polygon_asset_files gcs asset) = Inr names \<longrightarrow>
        names = filter (prefix (listing_prefix asset)) (map fst (objects gcs)))
   \<and> (fst (list_polygon_asset_files gcs asset) = Inr names \<and> asset_id asset = ''SPY'' \<longrightarrow>
        (\<forall>n \<in> set names. \<not> prefix (listing_prefix (asset\<lparr>asset_id := ''SPYD''\<rparr>)) n))"
proof (intro conjI impI ballI)
  show "fst (list_polygon_asset_files gcs asset) = list_blobs_in_bucket gcs (listing_prefix asset) None"
    by (simp add: listing_prefix_code)
next
  assume "fst (list_polygon_asset_files gcs asset) = Inr names"
  then show "names = filter (prefix (listing_prefix asset)) (map fst (objects gcs))"
    by (auto simp: listing_prefix_code list_blobs_in_bucket_def split: option.splits)
next
  fix n
  assume a: "fst (list_polygon_asset_files gcs asset) = Inr names \<and> asset_id asset = ''SPY''" and n: "n \<in> set names"
  then have "names = filter (prefix (listing_prefix asset)) (map fst (objects gcs))"
    by (auto simp: listing_prefix_code list_blobs_in_bucket_def split: option.splits)
  with n have p: "prefix (listing_prefix asset) n"
    by simp
  from a obtain P where P: "listing_prefix asset = P @ ''/SPY/''"
      "listing_prefix (asset\<lparr>asset_id := ''SPYD''\<rparr>) = P @ ''/SPYD/''"
    using spy_prefixes by blast
  show "\<not> prefix (listing_prefix (asset\<lparr>asset_id := ''SPYD''\<rparr>)) n"
  proof
    assume "prefix (listing_prefix (asset\<lparr>asset_id := ''SPYD''\<rparr>)) n"
    with p have "prefix (P @ ''/SPY/'') (P @ ''/SPYD/'') \<or> prefix (P @ ''/SPYD/'') (P @ ''/SPY/'')"
      unfolding P by (rule prefix_same_cases)
    then show False
      by simp
  qed
qed

theorem asset_files_under_prefix_witness:
  "fst (list_polygon_asset_files ex_bucket ex_asset)
     = Inr [''polygon/equity/ohlcv/1d/SPY/2024-01-02.jsonl'', ''polygon/equity/ohlcv/1d/SPY/2024-01-01.jsonl'']
   \<and> asset_id ex_asset = ''SPY''
   \<and> listing_prefix (ex_asset\<lparr>asset_id := ''SPYD''\<rparr>) = ''polygon/equity/ohlcv/1d/SPYD/''
   \<and> \<not> prefix (listing_prefix (ex_asset\<lparr>asset_id := ''SPYD''\<rparr>)) ''polygon/equity/ohlcv/1d/SPY/2024-01-02.jsonl''
   \<and> ''polygon/equity/ohlcv/1d/SPYD/2024-01-01.jsonl'' \<in> fst ` set (objects ex_bucket)"
  using asset_files_under_prefix [of ex_bucket ex_asset
      "[''polygon/equity/ohlcv/1d/SPY/2024-01-02.jsonl'', ''polygon/equity/ohlcv/1d/SPY/2024-01-01.jsonl'']"]
  by (simp add: ex_listing) (simp add: listing_prefix_def label_path_def suffix_to_prefix ex_defs)

section \<open>Asset identity: equality and hashing\<close>

text \<open>
  C6. Two assets compare equal exactly when their labels are equal, assets with equal
  labels have equal hashes, and changing the \<open>traded\<close> field changes neither the label,
  nor the outcome of a comparison, nor the hash.
\<close>

theorem asset_eq_iff_label:
  "(asset_eq a b \<longleftrightarrow> label a = label b)
   \<and> (label a = label b \<longrightarrow> asset_hash h a = asset_hash h b)
   \<and> label (a\<lparr>traded := t\<rparr>) = label a
   \<and> asset_eq (a\<lparr>traded := t\<rparr>) (b\<lparr>traded := u\<rparr>) = asset_eq a b
   \<and> asset_hash h (a\<lparr>traded := t\<rparr>) = asset_hash h a"
  by (auto simp: asset_eq_def asset_hash_def label_def)

theorem asset_eq_iff_label_witness:
  "asset_eq (new_PolygonDataAsset Equity ''SPY'' ''polygon'' ''1d'' True) (default_asset Equity ''SPY'')
   \<and> asset_hash (\<lambda>s. int (length s)) (new_PolygonDataAsset Equity ''SPY'' ''polygon'' ''1d'' True)
       = asset_hash (\<lambda>s. int (length s)) (default_asset Equity ''SPY'')
   \<and> \<not> asset_eq (default_asset Equity ''SPY'') (default_asset Equity ''SPYD'')"
  using asset_eq_iff_label [of "new_PolygonDataAsset Equity ''SPY'' ''polygon'' ''1d'' True"
      "default_asset Equity ''SPY''" "\<lambda>s. int (length s)"]
    asset_eq_iff_label [of "default_asset Equity ''SPY''" "default_asset Equity ''SPYD''" "\<lambda>s. int (length s)"]
  by (simp add: label_def new_PolygonDataAsset_def default_asset_def)

section \<open>Casting the price columns\<close>

text \<open>
  C8. \<open>ohlc_to_float\<close> is idempotent: applying it to its own result gives that result
  again, and where it raises, applying it twice raises the same. A table it returns has
  the index and the column names of its argument, every column other than \<open>open\<close>,
  \<open>high\<close>, \<open>low\<close> and \<open>close\<close> unchanged, and these four columns cast, so that all
  their cells are floats. It returns whenever the table has the four columns and each of
  their cells can be cast.
\<close>

theorem ohlc_to_float_idempotent:
  "ebind (ohlc_to_float L df asset) (\<lambda>df1. ohlc_to_float L df1 asset) = ohlc_to_float L df asset
   \<and> (ohlc_to_float L df asset = Inr df' \<longrightarrow>
        idx df' = idx df \<and> map fst (cols df') = map fst (cols df)
        \<and> (\<forall>n. n \<notin> set ohlcv_cols \<longrightarrow> map_of (cols df') n = map_of (cols df) n)
        \<and> (\<forall>n \<in> set ohlcv_cols. \<exists>v v'. map_of (cols df) n = Some v \<and> map_of (cols df') n = Some v'
               \<and> emap (cast_cell L) v = Inr v' \<and> list_all is_float v'))
   \<and> ((\<forall>n \<in> set ohlcv_cols. \<exists>v v'. map_of (cols df) n = Some v \<and> emap (cast_cell L) v = Inr v')
        \<longrightarrow> (\<exists>df1. ohlc_to_float L df asset = Inr df1))"
proof (intro conjI impI)
  show "ebind (ohlc_to_float L df asset) (\<lambda>df1. ohlc_to_float L df1 asset) = ohlc_to_float L df asset"
    by (cases "ohlc_to_float L df asset") (simp_all add: ebind_def ohlc_to_float_fixed)
next
  assume a: "ohlc_to_float L df asset = Inr df'"
  then obtain vo vh vl vc vo' vh' vl' vc' where
    m: "map_of (cols df) ''open'' = Some vo" "map_of (cols df) ''high'' = Some vh"
       "map_of (cols df) ''low'' = Some vl" "map_of (cols df) ''close'' = Some vc"
    and c: "emap (cast_cell L) vo = Inr vo'" "emap (cast_cell L) vh = Inr vh'"
       "emap (cast_cell L) vl = Inr vl'" "emap (cast_cell L) vc = Inr vc'"
    and d: "df' = df\<lparr>cols := set_ohlc vo' vh' vl' vc' (cols df)\<rparr>"
    unfolding ohlc_to_float_Inr by blast
  show "idx df' = idx df"
    by (simp add: d)
  show "map fst (cols df') = map fst (cols df)"
    using m by (simp add: d keys_set_ohlc)
  show "\<forall>n. n \<notin> set ohlcv_cols \<longrightarrow> map_of (cols df') n = map_of (cols df) n"
    by (simp add: d map_of_set_ohlc ohlcv_cols_def)
  show "\<forall>n \<in> set ohlcv_cols. \<exists>v v'. map_of (cols df) n = Some v \<and> map_of (cols df') n = Some v'
               \<and> emap (cast_cell L) v = Inr v' \<and> list_all is_float v'"
    using m c by (simp add: d map_of_set_ohlc ohlcv_cols_def emap_cast_fixed)
next
  assume "\<forall>n \<in> set ohlcv_cols. \<exists>v v'. map_of (cols df) n = Some v \<and> emap (cast_cell L) v = Inr v'"
  then show "\<exists>df1. ohlc_to_float L df asset = Inr df1"
    unfolding ohlc_to_float_Inr by (simp add: ohlcv_cols_def) blast
qed

theorem ohlc_to_float_idempotent_witness:
  "ohlc_to_float ex_lib ex_table ex_asset = Inr ex_floats
   \<and> ohlc_to_float ex_lib ex_floats ex_asset = Inr ex_floats
   \<and> map_of (cols ex_table) ''open'' = Some [IntC 1] \<and> map_of (cols ex_floats) ''open'' = Some [FloatC 1]
   \<and> map_of (cols ex_floats) ''volume'' = map_of (cols ex_table) ''volume''"
  using ohlc_to_float_idempotent [of ex_lib ex_table ex_asset ex_floats]
  by (simp add: ex_float ebind_def ohlcv_cols_def) (simp add: ex_table_def ex_floats_def)

section \<open>The unused parameter of the remote loader\<close>

text \<open>
  C9. The parameter \<open>clean\<close> of \<open>load_polygon_data_asset_from_gcs\<close> has no effect: for
  every asset and blob limit the call returns the same result, and performs the same
  operations on the store, with \<open>clean\<close> set and not set.
\<close>

theorem remote_load_ignores_clean: "load_polygon_data_asset_from_gcs L gcs asset blob_limit True
   = load_polygon_data_asset_from_gcs L gcs asset blob_limit False"
  by (simp add: load_polygon_data_asset_from_gcs_def)

theorem remote_load_ignores_clean_witness:
  "load_polygon_data_asset_from_gcs ex_lib ex_bucket ex_asset None True = (Inr ex_remote, ex_ops)
   \<and> load_polygon_data_asset_from_gcs ex_lib ex_bucket ex_asset None False = (Inr ex_remote, ex_ops)"
  using remote_load_ignores_clean [of ex_lib ex_bucket ex_asset None]
  by (simp add: ex_remote_load)

section \<open>The logging wrapper\<close>

text \<open>
  C10. The logging wrapper is transparent: for every cleaner, table and asset, the wrapped
  cleaner returns the value, or raises the exception, of the cleaner itself; hence the
  loop over the wrapped cleaners in \<open>load_asset\<close> computes what the loop over the
  cleaners themselves computes.
\<close>

theorem log_wrapper_transparent:
  "fst (log_dataframe_changes (name, f) df asset) = f df asset
   \<and> fst (apply_cleaners cs df asset) = apply_plain (map snd cs) df asset"
proof
  show "fst (log_dataframe_changes (name, f) df asset) = f df asset"
    by (simp add: log_dataframe_changes_def Let_def split: sum.splits)
next
  show "fst (apply_cleaners cs df asset) = apply_plain (map snd cs) df asset"
  proof (induction cs arbitrary: df)
    case Nil
    show ?case by simp
  next
    case (Cons c cs)
    have w: "fst (log_dataframe_changes c df asset) = snd c df asset"
      by (simp add: log_dataframe_changes_def Let_def split: sum.splits)
    show ?case
    proof (cases "snd c df asset")
      case (Inl e)
      with w show ?thesis
        by (cases "log_dataframe_changes c df asset") (auto split: sum.splits)
    next
      case (Inr df')
      with w Cons.IH [of df'] show ?thesis
        by (cases "log_dataframe_changes c df asset") (auto split: sum.splits prod.splits)
    qed
  qed
qed

theorem log_wrapper_transparent_witness:
  "log_dataframe_changes (''ohlc_to_float'', ohlc_to_float ex_lib) ex_table ex_asset
     = (Inr ex_floats, [''ohlc_to_float() made no changes.''])
   \<and> ohlc_to_float ex_lib ex_table ex_asset = Inr ex_floats
   \<and> fst (apply_cleaners (CLEANERS ex_lib (asset_type ex_asset)) ex_table ex_asset) = Inr ex_cleaned
   \<and> apply_plain (map snd (CLEANERS ex_lib (asset_type ex_asset))) ex_table ex_asset = Inr ex_cleaned"
proof -
  have w: "log_dataframe_changes (''ohlc_to_float'', ohlc_to_float ex_lib) ex_table ex_asset
     = (Inr ex_floats, [''ohlc_to_float() made no changes.''])"
    by (simp add: log_dataframe_changes_def ex_float ex_shapes)
  from log_wrapper_transparent [of "''ohlc_to_float''" "ohlc_to_float ex_lib" ex_table ex_asset
      "CLEANERS ex_lib (asset_type ex_asset)"] w show ?thesis
    by (simp add: ex_clean ex_float)
qed

end
